theory Spec2Isabelle
  imports Main "HOL-Library.Multiset"
begin

section \<open>Python values and failures\<close>

text \<open>
  The program is a Python script. Its integers are unbounded (\<open>int\<close>), its note
  names are strings, its tables are dictionary literals with pairwise distinct keys
  (kept as association lists in insertion order, which is the order \<open>.items()\<close>
  iterates in). The three exceptions its pure part can raise are values of
  \<open>py_error\<close>; a function that can raise returns \<open>py_error + 'a\<close>.
\<close>

datatype py_error = KeyError | ValueError | IndexError

text \<open>\<open>xs[i]\<close> on a list: an index below zero counts from the end, anything outside
  \<open>-len(xs) \<le> i < len(xs)\<close> raises \<open>IndexError\<close>.\<close>

definition getitem :: "'a list \<Rightarrow> int \<Rightarrow> py_error + 'a" where
  "getitem xs i =
     (if 0 \<le> i \<and> i < int (length xs) then Inr (xs ! nat i)
      else if i < 0 \<and> - int (length xs) \<le> i then Inr (xs ! nat (i + int (length xs)))
      else Inl IndexError)"

text \<open>\<open>xs.index(v)\<close>: the first position holding \<open>v\<close>, \<open>ValueError\<close> when there
  is none.\<close>

fun index_from :: "'a list \<Rightarrow> 'a \<Rightarrow> int \<Rightarrow> py_error + int" where
  "index_from [] v k = Inl ValueError"
| "index_from (x # xs) v k = (if x = v then Inr k else index_from xs v (k + 1))"

definition list_index :: "'a list \<Rightarrow> 'a \<Rightarrow> py_error + int" where
  "list_index xs v = index_from xs v 0"

text \<open>\<open>d[k]\<close> on a dictionary: \<open>KeyError\<close> for a key that is not there.\<close>

definition dict_getitem :: "('k \<times> 'v) list \<Rightarrow> 'k \<Rightarrow> py_error + 'v" where
  "dict_getitem d k = (case map_of d k of None \<Rightarrow> Inl KeyError | Some v \<Rightarrow> Inr v)"

text \<open>\<open>enumerate(xs)\<close>, counting from \<open>k\<close>.\<close>

fun enumerate_from :: "int \<Rightarrow> 'a list \<Rightarrow> (int \<times> 'a) list" where
  "enumerate_from k [] = []"
| "enumerate_from k (x # xs) = (k, x) # enumerate_from (k + 1) xs"

section \<open>The tables\<close>

definition notes_list :: "string list" where
  \<comment> \<open>\<open>notes\<close> in the source; the name is a keyword of Isabelle\<close>
  "notes_list = [''C'', ''C#'', ''D'', ''D#'', ''E'', ''F'', ''F#'', ''G'', ''G#'', ''A'', ''A#'', ''B'']"

text \<open>\<open>{note: i for i, note in enumerate(notes)}\<close>: a later pair would overwrite an
  earlier one with the same key.\<close>

definition note_to_midi :: "string \<rightharpoonup> int" where
  "note_to_midi = fold (\<lambda>(i, note) d. d(note \<mapsto> i)) (enumerate_from 0 notes_list) Map.empty"

definition scales :: "(string \<times> int list) list" where
  "scales =
    [(''major'', [2, 2, 1, 2, 2, 2, 1]),
     (''natural_minor'', [2, 1, 2, 2, 1, 2, 2]),
     (''harmonic_minor'', [2, 1, 2, 2, 1, 3, 1]),
     (''melodic_minor'', [2, 1, 2, 2, 2, 2, 1]),
     (''dorian'', [2, 1, 2, 2, 2, 1, 2]),
     (''phrygian'', [1, 2, 2, 2, 1, 2, 2]),
     (''lydian'', [2, 2, 2, 1, 2, 2, 1]),
     (''mixolydian'', [2, 2, 1, 2, 2, 1, 2]),
     (''locrian'', [1, 2, 2, 1, 2, 2, 2])]"

definition chord_formulas :: "(string \<times> int list) list" where
  "chord_formulas =
    [(''major'', [0, 4, 7]),
     (''major6'', [0, 4, 7, 9]),
     (''major7'', [0, 4, 7, 11]),
     (''major9'', [0, 4, 7, 11, 14]),
     (''major11'', [0, 4, 7, 11, 14, 17]),
     (''major13'', [0, 4, 7, 11, 14, 17, 21]),
     (''minor'', [0, 3, 7]),
     (''minor6'', [0, 3, 7, 9]),
     (''minor7'', [0, 3, 7, 10]),
     (''minor9'', [0, 3, 7, 10, 14]),
     (''minor11'', [0, 3, 7, 10, 14, 17]),
     (''minor13'', [0, 3, 7, 10, 14, 17, 21]),
     (''dominant7'', [0, 4, 7, 10]),
     (''dominant9'', [0, 4, 7, 10, 14]),
     (''dominant11'', [0, 4, 7, 10, 14, 17]),
     (''dominant13'', [0, 4, 7, 10, 14, 17, 21]),
     (''augmented'', [0, 4, 8]),
     (''augmented7'', [0, 4, 8, 10]),
     (''augmented9'', [0, 4, 8, 10, 14]),
     (''diminished'', [0, 3, 6]),
     (''diminished7'', [0, 3, 6, 9]),
     (''sus2'', [0, 2, 7]),
     (''sus4'', [0, 5, 7]),
     (''7#5'', [0, 4, 8, 10]),
     (''7b5'', [0, 4, 6, 10]),
     (''7#9'', [0, 4, 7, 10, 15]),
     (''7b9'', [0, 4, 7, 10, 13]),
     (''add9'', [0, 4, 7, 14]),
     (''major7#11'', [0, 4, 7, 11, 18]),
     (''minor_major7'', [0, 3, 7, 11])]"

definition progressions :: "(string \<times> int list) list" where
  "progressions =
    [(''I-V-ii-IV'', [0, 4, 1, 3]),
     (''12-bar-blues'', [0, 0, 0, 0, 3, 3, 0, 0, 4, 3, 0, 0]),
     (''I-IV-I-V-IV-I'', [0, 3, 0, 4, 3, 0]),
     (''iii-vi-ii-V'', [2, 5, 1, 4]),
     (''I-vi-ii-V'', [0, 5, 1, 4]),
     (''I-vi-ii-V-I'', [0, 5, 1, 4, 0]),
     (''I-V-vi-iii-IV-I-IV-V'', [0, 4, 5, 2, 3, 0, 3, 4]),
     (''I-IV-V'', [0, 3, 4]),
     (''I-bVII-IV'', [0, 10, 3]),
     (''I-V-vi-iii-IV-I-ii-V'', [0, 4, 5, 2, 3, 0, 1, 4]),
     (''ii-V-I'', [1, 4, 0]),
     (''I-ii-IV-V'', [0, 1, 3, 4]),
     (''ii-V-I-vi'', [1, 4, 0, 5]),
     (''i-bVI-bVII'', [0, 8, 10]),
     (''i-bVII-bVI-VII'', [0, 10, 8, 11]),
     (''i-iv-v'', [0, 3, 7]),
     (''I-IV-vi-V'', [0, 3, 5, 4]),
     (''I-V-IV-I'', [0, 4, 3, 0]),
     (''vi-IV-I-V'', [5, 3, 0, 4]),
     (''I-IV-I-V'', [0, 3, 0, 4]),
     (''I-V-IV'', [0, 4, 3]),
     (''I-IV-V-IV'', [0, 3, 4, 3]),
     (''I-IV-V-I'', [0, 3, 4, 0]),
     (''I-vi-IV-V'', [0, 5, 3, 4])]"

section \<open>The consonance check\<close>

definition consonant_intervals :: "int list" where
  "consonant_intervals = [0, 3, 4, 7, 8, 9, 12]"

text \<open>
  The inner loop, \<open>for j in range(i + 1, len(chord))\<close>, and the outer one,
  \<open>for i in range(len(chord))\<close>, each over the list of indices still to visit.
  \<open>return False\<close> leaves both loops at once; \<open>return True\<close> follows the outer
  loop. Both indices come from \<open>range\<close> and are in range, so \<open>chord[j]\<close> and
  \<open>chord[i]\<close> never raise.
\<close>

fun consonant_inner :: "int list \<Rightarrow> nat \<Rightarrow> nat list \<Rightarrow> bool" where
  "consonant_inner chord i [] = True"
| "consonant_inner chord i (j # js) =
     (let interval = (chord ! j - chord ! i) mod 12
      in if interval \<notin> set consonant_intervals then False
         else consonant_inner chord i js)"

fun consonant_outer :: "int list \<Rightarrow> nat list \<Rightarrow> bool" where
  "consonant_outer chord [] = True"
| "consonant_outer chord (i # rest) =
     (if consonant_inner chord i [i + 1 ..< length chord]
      then consonant_outer chord rest else False)"

definition is_consonant_chord :: "int list \<Rightarrow> bool" where
  "is_consonant_chord chord = consonant_outer chord [0 ..< length chord]"

section \<open>Scales, chords and progressions\<close>

text \<open>The loop of \<open>generate_scale\<close>: \<open>current_note\<close>, the intervals still to walk
  and the scale built so far.\<close>

fun scale_loop :: "int \<Rightarrow> int list \<Rightarrow> string list \<Rightarrow> py_error + string list" where
  "scale_loop current_note [] scale = Inr scale"
| "scale_loop current_note (interval # rest) scale =
     (let current_note' = (current_note + interval) mod 12
      in case getitem notes_list current_note' of
           Inl e \<Rightarrow> Inl e
         | Inr name \<Rightarrow> scale_loop current_note' rest (scale @ [name]))"

definition generate_scale :: "string \<Rightarrow> string \<Rightarrow> py_error + string list" where
  "generate_scale root scale_type =
     (case dict_getitem scales scale_type of
        Inl e \<Rightarrow> Inl e
      | Inr scale_intervals \<Rightarrow>
          (case list_index notes_list root of
             Inl e \<Rightarrow> Inl e
           | Inr current_note \<Rightarrow> scale_loop current_note scale_intervals [root]))"

definition generate_chord :: "string \<Rightarrow> int list \<Rightarrow> py_error + int list" where
  "generate_chord root formula =
     (case list_index notes_list root of
        Inl e \<Rightarrow> Inl e
      | Inr root_index \<Rightarrow> Inr (map (\<lambda>interval. (root_index + interval) mod 12) formula))"

text \<open>\<open>generate_all_chords_for_scale\<close>: for each root of the scale, in order, one
  entry per chord formula, in the table's order, appended to \<open>all_chords\<close>.\<close>

fun formulas_loop ::
  "string \<Rightarrow> (string \<times> int list) list \<Rightarrow> (string \<times> string \<times> int list) list
     \<Rightarrow> py_error + (string \<times> string \<times> int list) list" where
  "formulas_loop root [] all_chords = Inr all_chords"
| "formulas_loop root ((chord_name, formula) # rest) all_chords =
     (case generate_chord root formula of
        Inl e \<Rightarrow> Inl e
      | Inr chord \<Rightarrow> formulas_loop root rest (all_chords @ [(root, chord_name, chord)]))"

fun roots_loop ::
  "string list \<Rightarrow> (string \<times> string \<times> int list) list
     \<Rightarrow> py_error + (string \<times> string \<times> int list) list" where
  "roots_loop [] all_chords = Inr all_chords"
| "roots_loop (root # rest) all_chords =
     (case formulas_loop root chord_formulas all_chords of
        Inl e \<Rightarrow> Inl e
      | Inr all_chords' \<Rightarrow> roots_loop rest all_chords')"

definition generate_all_chords_for_scale ::
  "string list \<Rightarrow> py_error + (string \<times> string \<times> int list) list" where
  "generate_all_chords_for_scale scale = roots_loop scale []"

text \<open>\<open>[chords[i] for i in progression_pattern]\<close>: the first index out of range
  raises.\<close>

fun generate_progression :: "'a list \<Rightarrow> int list \<Rightarrow> py_error + 'a list" where
  "generate_progression chords [] = Inr []"
| "generate_progression chords (i # rest) =
     (case getitem chords i of
        Inl e \<Rightarrow> Inl e
      | Inr chord \<Rightarrow>
          (case generate_progression chords rest of
             Inl e \<Rightarrow> Inl e
           | Inr progression \<Rightarrow> Inr (chord # progression)))"

section \<open>The batch driver's pure part\<close>

text \<open>
  \<open>create_midi_files\<close> builds every progression from
  \<open>[chord for _, _, chord in all_chords[:7]]\<close>. Writing and rendering files is left
  out; what remains is the list of named progressions, or the first exception.
\<close>

definition progression_slate :: "(string \<times> string \<times> int list) list \<Rightarrow> int list list" where
  "progression_slate all_chords = map (\<lambda>(_, _, chord). chord) (take 7 all_chords)"

fun progressions_loop ::
  "int list list \<Rightarrow> (string \<times> int list) list \<Rightarrow> py_error + (string \<times> int list list) list" where
  "progressions_loop slate [] = Inr []"
| "progressions_loop slate ((progression_name, pattern) # rest) =
     (case generate_progression slate pattern of
        Inl e \<Rightarrow> Inl e
      | Inr progression \<Rightarrow>
          (case progressions_loop slate rest of
             Inl e \<Rightarrow> Inl e
           | Inr built \<Rightarrow> Inr ((progression_name, progression) # built)))"

definition create_midi_files :: "string \<Rightarrow> string \<Rightarrow> py_error + (string \<times> int list list) list" where
  "create_midi_files root_note scale_type =
     (case generate_scale root_note scale_type of
        Inl e \<Rightarrow> Inl e
      | Inr scale \<Rightarrow>
          (case generate_all_chords_for_scale scale of
             Inl e \<Rightarrow> Inl e
           | Inr all_chords \<Rightarrow> progressions_loop (progression_slate all_chords) progressions))"

section \<open>Auxiliary functions of the proofs\<close>

text \<open>
  Two functions that are not in the program and describe what its loops build: the
  values \<open>current_note\<close> takes in \<open>generate_scale\<close>, and the entries one root
  contributes to \<open>all_chords\<close>.
\<close>

fun cursors :: "int \<Rightarrow> int list \<Rightarrow> int list" where
  "cursors c [] = []"
| "cursors c (s # ss) = ((c + s) mod 12) # cursors ((c + s) mod 12) ss"

definition chords_on ::
  "string \<Rightarrow> int \<Rightarrow> (string \<times> int list) list \<Rightarrow> (string \<times> string \<times> int list) list" where
  "chords_on root pc formulas =
     map (\<lambda>(chord_name, formula).
            (root, chord_name, map (\<lambda>interval. (pc + interval) mod 12) formula)) formulas"

section \<open>Facts about the note table\<close>

lemma length_notes: "length notes_list = 12"
  by (simp add: notes_list_def)

lemma distinct_notes: "distinct notes_list"
  by (simp add: notes_list_def)

lemma nat_less_12: "(k::nat) < 12 \<longleftrightarrow> k \<in> {0,1,2,3,4,5,6,7,8,9,10,11}"
  unfolding insert_iff empty_iff by presburger

lemma in_notes_nth: "root \<in> set notes_list \<longleftrightarrow> (\<exists>k<12. root = notes_list ! k)"
  by (metis in_set_conv_nth length_notes)

lemma list_index_nth: "k < 12 \<Longrightarrow> list_index notes_list (notes_list ! k) = Inr (int k)"
  unfolding nat_less_12 by (auto simp: list_index_def notes_list_def)

lemma note_to_midi_nth: "k < 12 \<Longrightarrow> note_to_midi (notes_list ! k) = Some (int k)"
  unfolding nat_less_12 by (auto simp: note_to_midi_def notes_list_def)

lemma getitem_notes_nat: "k < 12 \<Longrightarrow> getitem notes_list (int k) = Inr (notes_list ! k)"
  by (simp add: getitem_def length_notes)

lemma index_from_absent: "v \<notin> set xs \<Longrightarrow> index_from xs v k = Inl ValueError"
  by (induction xs arbitrary: k) auto

lemma getitem_notes_mod: "getitem notes_list (x mod 12) = Inr (notes_list ! nat (x mod 12))"
  by (simp add: getitem_def length_notes)

section \<open>Facts about list and dictionary lookups\<close>

lemma getitem_error: "getitem xs i = Inl e \<Longrightarrow> e = IndexError"
  by (auto simp: getitem_def split: if_splits)

lemma getitem_nonneg: "0 \<le> i \<Longrightarrow> i < int (length xs) \<Longrightarrow> getitem xs i = Inr (xs ! nat i)"
  by (simp add: getitem_def)

lemma getitem_Inl_iff:
  "getitem xs i = Inl IndexError \<longleftrightarrow> i < - int (length xs) \<or> int (length xs) \<le> i"
  by (auto simp: getitem_def)

lemma dict_getitem_member:
  "distinct (map fst d) \<Longrightarrow> (k, v) \<in> set d \<Longrightarrow> dict_getitem d k = Inr v"
  by (simp add: dict_getitem_def)

lemma dict_getitem_absent:
  "k \<notin> fst ` set d \<Longrightarrow> dict_getitem d k = Inl KeyError"
  using map_of_eq_None_iff[of d k] by (simp add: dict_getitem_def)

lemma scales_shape: "(name, steps) \<in> set scales \<Longrightarrow> length steps = 7 \<and> sum_list steps = 12"
  by (auto simp: scales_def)

lemma distinct_scale_names: "distinct (map fst scales)"
  by (simp add: scales_def)

section \<open>Note names and pitch classes\<close>

text \<open>
  Claim C9. Each of the 12 names of \<open>notes\<close> has a pitch class in \<open>[0, 12)\<close>, the
  same one in \<open>note_to_midi\<close> and by \<open>notes.index\<close>, and \<open>notes\<close> at that pitch
  class is the name again. Each pitch class in \<open>[0, 12)\<close> has a name in \<open>notes\<close>
  whose pitch class, by either lookup, is the one started from. The table has 12
  pairwise different names, so the two conversions are inverse bijections.
\<close>

theorem note_pitch_class_roundtrip:
  "(\<forall>n \<in> set notes_list. \<exists>pc. note_to_midi n = Some pc \<and> list_index notes_list n = Inr pc
        \<and> 0 \<le> pc \<and> pc < 12 \<and> getitem notes_list pc = Inr n)
   \<and> (\<forall>pc. 0 \<le> pc \<and> pc < 12 \<longrightarrow>
        (\<exists>n. getitem notes_list pc = Inr n \<and> n \<in> set notes_list
           \<and> note_to_midi n = Some pc \<and> list_index notes_list n = Inr pc))
   \<and> distinct notes_list \<and> length notes_list = 12"
proof (intro conjI ballI allI impI)
  fix n assume "n \<in> set notes_list"
  then obtain k where k: "k < 12" "n = notes_list ! k"
    by (auto simp: in_notes_nth)
  show "\<exists>pc. note_to_midi n = Some pc \<and> list_index notes_list n = Inr pc
        \<and> 0 \<le> pc \<and> pc < 12 \<and> getitem notes_list pc = Inr n"
    using k by (intro exI[of _ "int k"])
      (simp add: note_to_midi_nth list_index_nth getitem_notes_nat)
next
  fix pc :: int assume pc: "0 \<le> pc \<and> pc < 12"
  define k where "k = nat pc"
  have k: "k < 12" "pc = int k"
    using pc by (auto simp: k_def)
  show "\<exists>n. getitem notes_list pc = Inr n \<and> n \<in> set notes_list
           \<and> note_to_midi n = Some pc \<and> list_index notes_list n = Inr pc"
    using k by (intro exI[of _ "notes_list ! k"])
      (simp add: note_to_midi_nth list_index_nth getitem_notes_nat length_notes)
qed (simp_all add: distinct_notes length_notes)

theorem note_pitch_class_roundtrip_witness:
  "note_to_midi ''F#'' = Some 6 \<and> list_index notes_list ''F#'' = Inr 6
   \<and> getitem notes_list 6 = Inr ''F#''"
proof -
  have m: "''F#'' \<in> set notes_list"
    by (simp add: notes_list_def)
  from note_pitch_class_roundtrip m obtain pc where
    pc: "note_to_midi ''F#'' = Some pc" "list_index notes_list ''F#'' = Inr pc"
      "getitem notes_list pc = Inr ''F#''"
    by blast
  have "list_index notes_list ''F#'' = Inr 6"
    by (simp add: list_index_def notes_list_def)
  with pc have "pc = 6" by simp
  with pc show ?thesis by simp
qed

section \<open>Scales\<close>

lemma scale_loop_cursors:
  "scale_loop c steps acc = Inr (acc @ map (\<lambda>p. notes_list ! nat p) (cursors c steps))"
  by (induction steps arbitrary: c acc) (simp_all add: Let_def getitem_notes_mod)

lemma length_cursors: "length (cursors c steps) = length steps"
  by (induction steps arbitrary: c) simp_all

lemma cursors_range: "p \<in> set (cursors c steps) \<Longrightarrow> 0 \<le> p \<and> p < 12"
  by (induction steps arbitrary: c) auto

lemma cursors_0: "steps \<noteq> [] \<Longrightarrow> cursors c steps ! 0 = (c + steps ! 0) mod 12"
  by (cases steps) simp_all

lemma cursors_Suc:
  "Suc k < length steps \<Longrightarrow>
     cursors c steps ! Suc k = (cursors c steps ! k + steps ! Suc k) mod 12"
proof (induction steps arbitrary: c k)
  case Nil
  then show ?case by simp
next
  case (Cons s ss)
  show ?case
  proof (cases k)
    case 0
    with Cons.prems show ?thesis by (cases ss) simp_all
  next
    case (Suc m)
    with Cons show ?thesis by simp
  qed
qed

lemma cursors_last:
  "steps \<noteq> [] \<Longrightarrow> last (cursors c steps) = (c + sum_list steps) mod 12"
proof (induction steps arbitrary: c)
  case Nil
  then show ?case by simp
next
  case (Cons s ss)
  show ?case
  proof (cases ss)
    case Nil
    then show ?thesis by simp
  next
    case (Cons t ts)
    then have "ss \<noteq> []" by simp
    from Cons.IH[OF this, of "(c + s) mod 12"] Cons show ?thesis
      by (simp add: mod_add_left_eq add.assoc)
  qed
qed

lemma generate_scale_cursors:
  assumes r: "r < 12" and st: "(scale_type, steps) \<in> set scales"
  shows "generate_scale (notes_list ! r) scale_type =
           Inr (notes_list ! r # map (\<lambda>p. notes_list ! nat p) (cursors (int r) steps))"
  using r by (simp add: generate_scale_def dict_getitem_member[OF distinct_scale_names st]
      list_index_nth scale_loop_cursors)

text \<open>
  Claim C1. For a root among the 12 names of \<open>notes\<close> and a scale type of the table
  \<open>scales\<close>, with step sizes \<open>steps\<close>, \<open>generate_scale\<close> returns a scale of exactly
  8 entries; entry 0 is the root and entry 7 is the root's name again; and for each
  \<open>k < 7\<close>, entry \<open>k + 1\<close> is the name \<open>notes\<close> holds at the pitch class of entry
  \<open>k\<close> advanced by \<open>steps[k]\<close> modulo 12.
\<close>

theorem generate_scale_octave_walk:
  assumes root: "root \<in> set notes_list" and st: "(scale_type, steps) \<in> set scales"
  shows "\<exists>sc. generate_scale root scale_type = Inr sc \<and> length sc = 8
           \<and> sc ! 0 = root \<and> sc ! 7 = root
           \<and> (\<forall>k<7. \<exists>c. list_index notes_list (sc ! k) = Inr c
                  \<and> getitem notes_list ((c + steps ! k) mod 12) = Inr (sc ! Suc k))"
proof -
  from root obtain r where r: "r < 12" "root = notes_list ! r"
    by (auto simp: in_notes_nth)
  define cs where "cs = cursors (int r) steps"
  define sc where "sc = root # map (\<lambda>p. notes_list ! nat p) cs"
  from scales_shape[OF st] have len: "length steps = 7" and total: "sum_list steps = 12"
    by simp_all
  have lcs: "length cs = 7"
    by (simp add: cs_def length_cursors len)
  have gen: "generate_scale root scale_type = Inr sc"
    unfolding sc_def cs_def r(2) by (rule generate_scale_cursors[OF r(1) st])
  have ne: "steps \<noteq> []"
    using len by auto
  have "cs \<noteq> []"
    using lcs by auto
  then have "cs ! 6 = last cs"
    using lcs by (simp add: last_conv_nth)
  also have "\<dots> = (int r + 12) mod 12"
    unfolding cs_def using cursors_last[OF ne, of "int r"] total by simp
  also have "\<dots> = int r"
    using r(1) by simp
  finally have cs6: "cs ! 6 = int r" .
  have closure: "sc ! 7 = root"
    using lcs cs6 by (simp add: sc_def r(2))
  have step: "\<exists>c. list_index notes_list (sc ! k) = Inr c
                  \<and> getitem notes_list ((c + steps ! k) mod 12) = Inr (sc ! Suc k)"
    if k: "k < 7" for k
  proof (cases k)
    case 0
    have "cs ! 0 = (int r + steps ! 0) mod 12"
      unfolding cs_def by (rule cursors_0[OF ne])
    then show ?thesis
      using 0 lcs r(1) by (intro exI[of _ "int r"])
        (simp add: sc_def r(2) list_index_nth getitem_notes_mod)
  next
    case (Suc m)
    with k lcs have m: "m < length cs" "Suc m < length cs" "Suc m < length steps"
      by (simp_all add: len)
    have rng: "0 \<le> cs ! m \<and> cs ! m < 12"
      using cursors_range[of "cs ! m" "int r" steps] m(1) by (simp add: cs_def)
    then have "nat (cs ! m) < 12"
      by linarith
    then have idx: "list_index notes_list (notes_list ! nat (cs ! m)) = Inr (cs ! m)"
      using list_index_nth[of "nat (cs ! m)"] rng by simp
    have nxt: "cs ! Suc m = (cs ! m + steps ! Suc m) mod 12"
      unfolding cs_def by (rule cursors_Suc[OF m(3)])
    show ?thesis
      using Suc m idx nxt by (intro exI[of _ "cs ! m"]) (simp add: sc_def getitem_notes_mod)
  qed
  show ?thesis
    using gen lcs closure step by (intro exI[of _ sc]) (simp add: sc_def)
qed

theorem generate_scale_octave_walk_witness:
  "''A'' \<in> set notes_list \<and> (''dorian'', [2, 1, 2, 2, 2, 1, 2]) \<in> set scales
   \<and> (\<exists>sc. generate_scale ''A'' ''dorian'' = Inr sc \<and> length sc = 8
           \<and> sc ! 0 = ''A'' \<and> sc ! 7 = ''A''
           \<and> (\<forall>k<7. \<exists>c. list_index notes_list (sc ! k) = Inr c
                  \<and> getitem notes_list ((c + [2, 1, 2, 2, 2, 1, 2] ! k) mod 12)
                      = Inr (sc ! Suc k)))"
proof -
  have a: "''A'' \<in> set notes_list"
    by (simp add: notes_list_def)
  have b: "(''dorian'', [2, 1, 2, 2, 2, 1, 2]) \<in> set scales"
    by (simp add: scales_def)
  from generate_scale_octave_walk[OF a b] a b show ?thesis
    by blast
qed

text \<open>
  Claim C10. A scale type that is not a key of \<open>scales\<close> makes \<open>generate_scale\<close>
  raise \<open>KeyError\<close> (the unknown scale type), whatever the root is. A root that is
  not in \<open>notes\<close> makes it raise \<open>ValueError\<close> (the unknown note name) for every
  scale type that is a key of \<open>scales\<close>; \<open>scales[scale_type]\<close> is looked up before
  \<open>notes.index(root)\<close>. In either case the exception is the result of the call and
  no scale is returned: nothing is defaulted.
\<close>

theorem generate_scale_errors:
  "(scale_type \<notin> fst ` set scales \<longrightarrow> generate_scale root scale_type = Inl KeyError)
   \<and> (scale_type \<in> fst ` set scales \<and> root \<notin> set notes_list \<longrightarrow>
        generate_scale root scale_type = Inl ValueError)
   \<and> (scale_type \<notin> fst ` set scales \<or> root \<notin> set notes_list \<longrightarrow>
        (\<exists>e. generate_scale root scale_type = Inl e))"
proof -
  have a: "generate_scale root scale_type = Inl KeyError"
    if "scale_type \<notin> fst ` set scales"
    using that by (simp add: generate_scale_def dict_getitem_absent)
  have b: "generate_scale root scale_type = Inl ValueError"
    if "scale_type \<in> fst ` set scales" "root \<notin> set notes_list"
  proof -
    from that(1) obtain steps where "(scale_type, steps) \<in> set scales"
      by auto
    then have "dict_getitem scales scale_type = Inr steps"
      by (rule dict_getitem_member[OF distinct_scale_names])
    then show ?thesis
      using that(2) by (simp add: generate_scale_def list_index_def index_from_absent)
  qed
  show ?thesis
    using a b by blast
qed

theorem generate_scale_errors_witness:
  "generate_scale ''C'' ''blues'' = Inl KeyError \<and> generate_scale ''H'' ''major'' = Inl ValueError"
proof -
  have 1: "''blues'' \<notin> fst ` set scales"
    by (simp add: scales_def)
  have 2: "''major'' \<in> fst ` set scales \<and> ''H'' \<notin> set notes_list"
    by (simp add: scales_def notes_list_def)
  from generate_scale_errors[of "''blues''" "''C''"] 1
  have "generate_scale ''C'' ''blues'' = Inl KeyError"
    by blast
  moreover from generate_scale_errors[of "''major''" "''H''"] 2
  have "generate_scale ''H'' ''major'' = Inl ValueError"
    by blast
  ultimately show ?thesis
    by simp
qed

text \<open>With a root outside \<open>notes\<close> and a scale type outside \<open>scales\<close>, the one
  exception raised is the \<open>KeyError\<close> of the table lookup.\<close>

lemma generate_scale_error_precedence:
  "''H'' \<notin> set notes_list \<and> generate_scale ''H'' ''blues'' \<noteq> Inl ValueError
   \<and> generate_scale ''H'' ''blues'' = Inl KeyError"
  by (simp add: generate_scale_def dict_getitem_def scales_def notes_list_def)

section \<open>Chords\<close>

text \<open>
  Claim C3. For a root among the 12 names of \<open>notes\<close>, with pitch class \<open>pc\<close>, and
  any formula (so for each one of \<open>chord_formulas\<close>), \<open>generate_chord\<close> returns a
  chord as long as the formula, every element of it in \<open>[0, 12)\<close>, the element at
  position \<open>k\<close> being \<open>(pc + formula[k]) mod 12\<close>: formula order is kept and two
  offsets that meet modulo 12 give two equal elements, both kept.
\<close>

theorem generate_chord_transposes:
  assumes root: "root \<in> set notes_list"
  shows "\<exists>chord pc. list_index notes_list root = Inr pc \<and> generate_chord root formula = Inr chord
           \<and> length chord = length formula
           \<and> (\<forall>x \<in> set chord. 0 \<le> x \<and> x < 12)
           \<and> (\<forall>k<length formula. chord ! k = (pc + formula ! k) mod 12)"
proof -
  from root obtain r where r: "r < 12" "root = notes_list ! r"
    by (auto simp: in_notes_nth)
  show ?thesis
    using r
    by (intro exI[of _ "map (\<lambda>interval. (int r + interval) mod 12) formula"] exI[of _ "int r"])
      (auto simp: generate_chord_def list_index_nth)
qed

theorem generate_chord_transposes_witness:
  "''D'' \<in> set notes_list \<and> generate_chord ''D'' [0, 4, 7, 12] = Inr [2, 6, 9, 2]"
proof -
  have a: "''D'' \<in> set notes_list"
    by (simp add: notes_list_def)
  have i: "list_index notes_list ''D'' = Inr 2"
    by (simp add: list_index_def notes_list_def)
  from generate_chord_transposes[OF a, of "[0, 4, 7, 12]"] obtain chord pc where
    c: "list_index notes_list ''D'' = Inr pc" "generate_chord ''D'' [0, 4, 7, 12] = Inr chord"
       "length chord = 4" "\<forall>k<4. chord ! k = (pc + [0, 4, 7, 12] ! k) mod 12"
    by auto
  from c(1) i have pc: "pc = 2"
    by simp
  have "chord ! 0 = 2" "chord ! 1 = 6" "chord ! 2 = 9" "chord ! 3 = 2"
    using c(4) pc by simp_all
  with c(3) have "chord = [2, 6, 9, 2]"
    by (simp add: list_eq_iff_nth_eq less_Suc_eq numeral_eq_Suc)
  with c(2) a show ?thesis
    by simp
qed

section \<open>Consonance\<close>

lemma consonant_inner_iff:
  "consonant_inner chord i js \<longleftrightarrow>
     (\<forall>j \<in> set js. (chord ! j - chord ! i) mod 12 \<in> set consonant_intervals)"
  by (induction js) (simp_all add: Let_def)

lemma consonant_outer_iff:
  "consonant_outer chord ks \<longleftrightarrow>
     (\<forall>i \<in> set ks. consonant_inner chord i [i + 1 ..< length chord])"
  by (induction ks) simp_all

lemma is_consonant_chord_pairs:
  "is_consonant_chord chord \<longleftrightarrow>
     (\<forall>i j. i < j \<and> j < length chord \<longrightarrow>
        (chord ! j - chord ! i) mod 12 \<in> set consonant_intervals)"
  unfolding is_consonant_chord_def consonant_outer_iff consonant_inner_iff
  by (auto simp: Suc_le_eq)

lemma consonant_set:
  "x mod 12 \<in> set consonant_intervals \<longleftrightarrow> x mod 12 \<in> {0, 3, 4, 7, 8, 9}"
proof -
  have "x mod 12 \<noteq> 12"
    using pos_mod_bound[of 12 x] by arith
  then show ?thesis
    by (simp add: consonant_intervals_def)
qed

lemma neg_mod_12: "(x - y) mod 12 = (12 - (y - x) mod 12) mod (12::int)"
proof -
  have "(x - y) mod 12 = (- (y - x)) mod 12"
    by simp
  also have "\<dots> = (- ((y - x) mod 12)) mod 12"
    by (simp add: mod_minus_eq)
  also have "\<dots> = (12 + - ((y - x) mod 12)) mod 12"
    by (simp only: mod_add_self1)
  finally show ?thesis
    by simp
qed

lemma int_range_12: "0 \<le> d \<Longrightarrow> d < 12 \<Longrightarrow> d \<in> {0,1,2,3,4,5,6,7,8,9,10,11::int}"
  unfolding insert_iff empty_iff by arith

lemma consonant_pair_sym:
  assumes "(y - x) mod 12 \<noteq> 7" "(x - y) mod 12 \<noteq> (7::int)"
  shows "(y - x) mod 12 \<in> set consonant_intervals \<longleftrightarrow>
         (x - y) mod 12 \<in> set consonant_intervals"
proof -
  define d where "d = (y - x) mod 12"
  have e: "(x - y) mod 12 = (12 - d) mod 12"
    unfolding d_def by (rule neg_mod_12)
  have "d \<in> {0,1,2,3,4,5,6,7,8,9,10,11}"
    by (rule int_range_12) (simp_all add: d_def)
  moreover have "d \<noteq> 7" "(12 - d) mod 12 \<noteq> 7"
    using assms by (simp_all add: e d_def[symmetric])
  ultimately have "d \<in> set consonant_intervals \<longleftrightarrow> (12 - d) mod 12 \<in> set consonant_intervals"
    by (elim insertE emptyE) (simp_all add: consonant_intervals_def)
  then show ?thesis
    by (simp add: e d_def[symmetric])
qed

lemma is_consonant_chord_set:
  assumes no5: "\<forall>x \<in> set chord. \<forall>y \<in> set chord. (y - x) mod 12 \<noteq> 7"
  shows "is_consonant_chord chord \<longleftrightarrow>
    (\<forall>x \<in> set chord. \<forall>y \<in> set chord. (y - x) mod 12 \<in> set consonant_intervals)"
proof
  assume c: "is_consonant_chord chord"
  show "\<forall>x \<in> set chord. \<forall>y \<in> set chord. (y - x) mod 12 \<in> set consonant_intervals"
  proof (intro ballI)
    fix x y assume xy: "x \<in> set chord" "y \<in> set chord"
    then obtain i j where
      ij: "i < length chord" "x = chord ! i" "j < length chord" "y = chord ! j"
      by (auto simp: in_set_conv_nth)
    consider "i < j" | "j < i" | "i = j"
      by linarith
    then show "(y - x) mod 12 \<in> set consonant_intervals"
    proof cases
      case 1
      with c ij show ?thesis
        by (simp add: is_consonant_chord_pairs)
    next
      case 2
      with c ij have "(x - y) mod 12 \<in> set consonant_intervals"
        by (simp add: is_consonant_chord_pairs)
      moreover have "(y - x) mod 12 \<noteq> 7" "(x - y) mod 12 \<noteq> 7"
        using no5 xy by auto
      ultimately show ?thesis
        using consonant_pair_sym by blast
    next
      case 3
      with ij show ?thesis
        by (simp add: consonant_intervals_def)
    qed
  qed
next
  assume "\<forall>x \<in> set chord. \<forall>y \<in> set chord. (y - x) mod 12 \<in> set consonant_intervals"
  then show "is_consonant_chord chord"
    by (simp add: is_consonant_chord_pairs)
qed

text \<open>A consonant chord that holds a pair 7 apart is not consonant when reversed.\<close>

lemma fifth_breaks_reversal:
  assumes c: "is_consonant_chord chord"
    and xy: "x \<in> set chord" "y \<in> set chord" "(y - x) mod 12 = 7"
  shows "\<not> is_consonant_chord (rev chord)"
proof -
  from xy obtain i j where
    ij: "i < length chord" "x = chord ! i" "j < length chord" "y = chord ! j"
    by (auto simp: in_set_conv_nth)
  have five: "(x - y) mod 12 = 5"
    using neg_mod_12[of x y] xy(3) by simp
  have bad: "(x - y) mod 12 \<notin> set consonant_intervals"
    by (simp add: five consonant_intervals_def)
  have "i \<noteq> j"
    using ij xy(3) by auto
  moreover have "\<not> j < i"
    using c ij bad by (auto simp: is_consonant_chord_pairs)
  ultimately have lt: "i < j"
    by linarith
  let ?n = "length chord"
  have p: "?n - Suc j < ?n - Suc i" "?n - Suc i < length (rev chord)"
    using lt ij by simp_all
  have "rev chord ! (?n - Suc i) = x" "rev chord ! (?n - Suc j) = y"
    using ij by (simp_all add: rev_nth)
  with bad have "(rev chord ! (?n - Suc i) - rev chord ! (?n - Suc j)) mod 12
      \<notin> set consonant_intervals"
    by simp
  with p show ?thesis
    unfolding is_consonant_chord_pairs by blast
qed

text \<open>A pair of entries 1, 2, 6, 10 or 11 apart is outside \<open>consonant_intervals\<close> in
  both directions, so a chord holding one is not consonant in any order.\<close>

lemma dissonant_pair:
  assumes xy: "x \<in> set chord" "y \<in> set chord" "(y - x) mod 12 \<in> {1, 2, 6, 10, 11}"
  shows "\<not> is_consonant_chord chord"
proof
  assume c: "is_consonant_chord chord"
  from xy obtain i j where
    ij: "i < length chord" "x = chord ! i" "j < length chord" "y = chord ! j"
    by (auto simp: in_set_conv_nth)
  have fwd: "(y - x) mod 12 \<notin> set consonant_intervals"
    using xy(3) by (auto simp: consonant_intervals_def)
  have "(x - y) mod 12 \<in> {1, 2, 6, 10, 11}"
    using xy(3) unfolding neg_mod_12[of x y] by auto
  then have bwd: "(x - y) mod 12 \<notin> set consonant_intervals"
    by (auto simp: consonant_intervals_def)
  have "i \<noteq> j"
    using ij xy(3) by auto
  then consider "i < j" | "j < i"
    by linarith
  then show False
  proof cases
    case 1
    with c ij fwd show False
      by (auto simp: is_consonant_chord_pairs)
  next
    case 2
    with c ij bwd show False
      by (auto simp: is_consonant_chord_pairs)
  qed
qed

lemma remainder_cases:
  assumes "(d::int) mod 12 \<notin> {1, 2, 6, 10, 11}"
  shows "d mod 12 \<in> {0, 3, 4, 5, 7, 8, 9}"
proof -
  have "d mod 12 \<in> {0,1,2,3,4,5,6,7,8,9,10,11}"
    by (rule int_range_12) simp_all
  with assms show ?thesis
    by auto
qed

lemma fifth_then_fifth:
  assumes "(z - a) mod 12 = 7" "(a - b) mod 12 = (7::int)"
  shows "(z - b) mod 12 = 2"
proof -
  have "(z - b) mod 12 = ((z - a) mod 12 + (a - b) mod 12) mod 12"
    by (simp add: mod_add_eq)
  then show ?thesis
    using assms by simp
qed

text \<open>Without such a pair, the entries that have another entry 7 above them can be
  put first, and that order is consonant.\<close>

lemma consonant_order_exists:
  assumes nobad: "\<forall>x \<in> set chord. \<forall>y \<in> set chord. (y - x) mod 12 \<notin> {1, 2, 6, 10, 11}"
    and low: "\<And>x. low x \<longleftrightarrow> (\<exists>y \<in> set chord. (y - x) mod 12 = 7)"
  shows "is_consonant_chord (filter low chord @ filter (\<lambda>x. \<not> low x) chord)"
proof -
  define S where "S = filter low chord"
  define N where "N = filter (\<lambda>x. \<not> low x) chord"
  define c where "c = S @ N"
  have setc: "set c = set chord"
    by (auto simp: c_def S_def N_def)
  have inS: "low x" if "x \<in> set S" for x
    using that by (simp add: S_def)
  have inN: "\<not> low x" if "x \<in> set N" for x
    using that by (simp add: N_def)
  have "(c ! j - c ! i) mod 12 \<in> set consonant_intervals"
    if ij: "i < j" "j < length c" for i j
  proof -
    define a where "a = c ! i"
    define b where "b = c ! j"
    have mem: "a \<in> set chord" "b \<in> set chord"
      using ij nth_mem[of i c] nth_mem[of j c] unfolding setc a_def b_def by simp_all
    have r: "(b - a) mod 12 \<in> {0, 3, 4, 5, 7, 8, 9}"
      using nobad mem by (intro remainder_cases) blast
    have "(b - a) mod 12 \<noteq> 5"
    proof
      assume five: "(b - a) mod 12 = 5"
      have ab: "(a - b) mod 12 = 7"
        using neg_mod_12[of a b] five by simp
      then have lowb: "low b"
        unfolding low using mem by blast
      have "j < length S"
      proof (rule ccontr)
        assume "\<not> j < length S"
        then have "b = N ! (j - length S)" "j - length S < length N"
          using ij by (simp_all add: b_def c_def nth_append)
        then have "b \<in> set N"
          by (metis nth_mem)
        with lowb inN show False
          by blast
      qed
      with ij have "a = S ! i" "i < length S"
        by (simp_all add: a_def c_def nth_append)
      then have "a \<in> set S"
        by (metis nth_mem)
      then have "low a"
        by (rule inS)
      then obtain z where z: "z \<in> set chord" "(z - a) mod 12 = 7"
        unfolding low by blast
      have "(z - b) mod 12 = 2"
        using z(2) ab by (rule fifth_then_fifth)
      with nobad mem z show False
        by auto
    qed
    with r show ?thesis
      unfolding a_def b_def by (auto simp: consonant_intervals_def)
  qed
  then have "is_consonant_chord c"
    unfolding is_consonant_chord_pairs by blast
  then show ?thesis
    by (simp add: c_def S_def N_def)
qed

text \<open>So a chord with a pair 7 apart and no pair 1, 2, 6, 10 or 11 apart has a
  consonant order and an order that is not consonant: outside the two cases of
  \<open>is_consonant_chord_set\<close> and \<open>dissonant_pair\<close> the order of the chord always
  matters.\<close>

lemma order_matters_otherwise:
  assumes fifth: "x \<in> set chord" "y \<in> set chord" "(y - x) mod 12 = 7"
    and nobad: "\<forall>x \<in> set chord. \<forall>y \<in> set chord. (y - x) mod 12 \<notin> {1, 2, 6, 10, 11}"
  shows "\<exists>c1 c2. mset c1 = mset chord \<and> mset c2 = mset chord
           \<and> is_consonant_chord c1 \<and> \<not> is_consonant_chord c2"
proof -
  define low where "low = (\<lambda>x. \<exists>y \<in> set chord. (y - x) mod 12 = 7)"
  define c1 where "c1 = filter low chord @ filter (\<lambda>x. \<not> low x) chord"
  have m: "mset c1 = mset chord"
    by (simp add: c1_def)
  have c: "is_consonant_chord c1"
    unfolding c1_def by (rule consonant_order_exists[OF nobad]) (simp add: low_def)
  have s: "set c1 = set chord"
    using m by (rule mset_eq_setD)
  have "\<not> is_consonant_chord (rev c1)"
    using c fifth unfolding s[symmetric] by (rule fifth_breaks_reversal)
  moreover have "mset (rev c1) = mset chord"
    using m by simp
  ultimately show ?thesis
    using m c by blast
qed

text \<open>
  Claim C2. \<open>is_consonant_chord\<close> returns true exactly when, for every pair of
  positions \<open>i < j\<close> of the chord, \<open>(chord[j] - chord[i]) mod 12\<close> is one of
  0, 3, 4, 7, 8, 9 (the 12 of \<open>consonant_intervals\<close> is never a remainder modulo 12).
  It returns true on \<open>[0, 4, 7]\<close> and false on \<open>[0, 4, 7, 10, 15]\<close>.
\<close>

theorem is_consonant_chord_pairwise:
  "(is_consonant_chord chord \<longleftrightarrow>
     (\<forall>i j. i < j \<and> j < length chord \<longrightarrow>
        (chord ! j - chord ! i) mod 12 \<in> {0, 3, 4, 7, 8, 9}))
   \<and> is_consonant_chord [0, 4, 7] \<and> \<not> is_consonant_chord [0, 4, 7, 10, 15]"
proof (intro conjI)
  show "is_consonant_chord chord \<longleftrightarrow>
     (\<forall>i j. i < j \<and> j < length chord \<longrightarrow>
        (chord ! j - chord ! i) mod 12 \<in> {0, 3, 4, 7, 8, 9})"
    unfolding is_consonant_chord_pairs consonant_set ..
  show "is_consonant_chord [0, 4, 7]"
    by code_simp
  show "\<not> is_consonant_chord [0, 4, 7, 10, 15]"
    by code_simp
qed

theorem is_consonant_chord_pairwise_witness:
  "is_consonant_chord [0, 3, 7]
   \<and> ([0, 3, 7] ! 2 - [0, 3, 7::int] ! 1) mod 12 \<in> {0, 3, 4, 7, 8, 9::int}"
proof -
  have a: "is_consonant_chord [0, 3, 7]"
    by code_simp
  have "(1::nat) < 2 \<and> 2 < length [0, 3, 7::int]"
    by simp
  with a is_consonant_chord_pairwise[of "[0, 3, 7]"]
  have "([0, 3, 7] ! 2 - [0, 3, 7::int] ! 1) mod 12 \<in> {0, 3, 4, 7, 8, 9::int}"
    by blast
  with a show ?thesis
    by simp
qed

text \<open>
  Claim C6, as the code has it. The interval of a pair is taken from the earlier
  position up to the later one, and 7 is in \<open>consonant_intervals\<close> while its
  complement 5 is not. \<open>is_consonant_chord\<close> returns the same result on every
  reordering of a chord in which no two entries are 7 apart modulo 12 (in either
  direction, so none are 5 apart either), and on every reordering of a chord in which
  some two entries are 1, 2, 6, 10 or 11 apart modulo 12 (such a chord is not
  consonant in any order).
\<close>

theorem is_consonant_chord_reorder:
  assumes p: "mset chord' = mset chord"
    and h: "(\<forall>x \<in> set chord. \<forall>y \<in> set chord. (y - x) mod 12 \<noteq> 7)
          \<or> (\<exists>x \<in> set chord. \<exists>y \<in> set chord. (y - x) mod 12 \<in> {1, 2, 6, 10, 11})"
  shows "is_consonant_chord chord' = is_consonant_chord chord"
proof -
  have s: "set chord' = set chord"
    using p by (rule mset_eq_setD)
  from h show ?thesis
  proof
    assume "\<forall>x \<in> set chord. \<forall>y \<in> set chord. (y - x) mod 12 \<noteq> 7"
    then show ?thesis
      by (simp add: is_consonant_chord_set s)
  next
    assume "\<exists>x \<in> set chord. \<exists>y \<in> set chord. (y - x) mod 12 \<in> {1, 2, 6, 10, 11}"
    then obtain x y where
      xy: "x \<in> set chord" "y \<in> set chord" "(y - x) mod 12 \<in> {1, 2, 6, 10, 11}"
      by blast
    have "\<not> is_consonant_chord chord"
      using xy by (rule dissonant_pair)
    moreover have "\<not> is_consonant_chord chord'"
      using xy unfolding s[symmetric] by (rule dissonant_pair)
    ultimately show ?thesis
      by simp
  qed
qed

theorem is_consonant_chord_reorder_witness:
  "mset [8, 0, 4] = mset [0, 4, 8::int]
   \<and> is_consonant_chord [8, 0, 4] \<and> is_consonant_chord [0, 4, 8]
   \<and> mset [15, 10, 7, 4, 0] = mset [0, 4, 7, 10, 15::int]
   \<and> \<not> is_consonant_chord [15, 10, 7, 4, 0] \<and> \<not> is_consonant_chord [0, 4, 7, 10, 15]"
proof -
  have p: "mset [8, 0, 4] = mset [0, 4, 8::int]"
    by simp
  have h: "(\<forall>x \<in> set [0, 4, 8::int]. \<forall>y \<in> set [0, 4, 8::int]. (y - x) mod 12 \<noteq> 7)
     \<or> (\<exists>x \<in> set [0, 4, 8::int]. \<exists>y \<in> set [0, 4, 8::int].
           (y - x) mod 12 \<in> {1, 2, 6, 10, 11})"
    by simp
  have c: "is_consonant_chord [0, 4, 8]"
    by code_simp
  have q: "mset [15, 10, 7, 4, 0] = mset [0, 4, 7, 10, 15::int]"
    by simp
  have k: "(\<forall>x \<in> set [0, 4, 7, 10, 15::int]. \<forall>y \<in> set [0, 4, 7, 10, 15::int].
           (y - x) mod 12 \<noteq> 7)
     \<or> (\<exists>x \<in> set [0, 4, 7, 10, 15::int]. \<exists>y \<in> set [0, 4, 7, 10, 15::int].
           (y - x) mod 12 \<in> {1, 2, 6, 10, 11})"
    by simp
  have d: "\<not> is_consonant_chord [0, 4, 7, 10, 15]"
    by code_simp
  from is_consonant_chord_reorder[OF p h] is_consonant_chord_reorder[OF q k] c d p q
  show ?thesis
    by simp
qed

text \<open>The C major triad is consonant as \<open>[0, 4, 7]\<close> and not as \<open>[7, 4, 0]\<close>, where
  the pair \<open>(7, 0)\<close> has the interval \<open>(0 - 7) mod 12 = 5\<close>.\<close>

theorem is_consonant_chord_order_matters:
  "mset [7, 4, 0] = mset [0, 4, 7::int]
   \<and> is_consonant_chord [0, 4, 7] \<and> \<not> is_consonant_chord [7, 4, 0]"
proof (intro conjI)
  show "mset [7, 4, 0] = mset [0, 4, 7::int]"
    by simp
  show "is_consonant_chord [0, 4, 7]"
    by code_simp
  show "\<not> is_consonant_chord [7, 4, 0]"
    by code_simp
qed

section \<open>Progressions\<close>

lemma generate_progression_error:
  "generate_progression chords pattern = Inl e \<Longrightarrow> e = IndexError"
  by (induction pattern arbitrary: e)
     (auto split: sum.splits dest: getitem_error)

lemma generate_progression_fails_iff:
  "generate_progression chords pattern = Inl IndexError \<longleftrightarrow>
     (\<exists>i \<in> set pattern. i < - int (length chords) \<or> int (length chords) \<le> i)"
proof (induction pattern)
  case Nil
  show ?case by simp
next
  case (Cons i rest)
  show ?case
  proof (cases "getitem chords i")
    case (Inl e)
    then have "e = IndexError"
      by (rule getitem_error)
    with Inl show ?thesis
      using getitem_Inl_iff[of chords i] by auto
  next
    case (Inr c)
    then have "\<not> (i < - int (length chords) \<or> int (length chords) \<le> i)"
      using getitem_Inl_iff[of chords i] by auto
    with Inr Cons.IH show ?thesis
      by (auto split: sum.splits dest: generate_progression_error)
  qed
qed

lemma generate_progression_python_index:
  "\<forall>i \<in> set pattern. - int (length chords) \<le> i \<and> i < int (length chords) \<Longrightarrow>
     generate_progression chords pattern =
       Inr (map (\<lambda>i. chords ! nat (if i < 0 then i + int (length chords) else i)) pattern)"
  by (induction pattern) (simp_all add: getitem_def)

lemma generate_progression_in_range:
  "\<forall>i \<in> set pattern. 0 \<le> i \<and> i < int (length chords) \<Longrightarrow>
     generate_progression chords pattern = Inr (map (\<lambda>i. chords ! nat i) pattern)"
  by (induction pattern) (simp_all add: getitem_nonneg)

text \<open>
  Claim C4. For a chord list and a pattern whose indices all lie in
  \<open>[0, len(chords))\<close>, \<open>generate_progression\<close> returns, position by position, the
  chord at each pattern index: pattern order is kept, an index may repeat and so may a
  chord. On a list of 7 chords, the pattern registered as \<open>12-bar-blues\<close> gives the 12
  chords \<open>chords[0]\<close> (4 times), \<open>chords[3]\<close> (twice), \<open>chords[0]\<close> (twice),
  \<open>chords[4]\<close>, \<open>chords[3]\<close>, \<open>chords[0]\<close> (twice).
\<close>

theorem generate_progression_selects:
  "((\<forall>i \<in> set pattern. 0 \<le> i \<and> i < int (length chords)) \<longrightarrow>
       generate_progression chords pattern = Inr (map (\<lambda>i. chords ! nat i) pattern))
   \<and> (length chords = 7 \<longrightarrow>
       dict_getitem progressions ''12-bar-blues'' = Inr [0, 0, 0, 0, 3, 3, 0, 0, 4, 3, 0, 0]
       \<and> generate_progression chords [0, 0, 0, 0, 3, 3, 0, 0, 4, 3, 0, 0] =
           Inr [chords ! 0, chords ! 0, chords ! 0, chords ! 0, chords ! 3, chords ! 3,
                chords ! 0, chords ! 0, chords ! 4, chords ! 3, chords ! 0, chords ! 0])"
proof (intro conjI impI)
  assume "\<forall>i \<in> set pattern. 0 \<le> i \<and> i < int (length chords)"
  then show "generate_progression chords pattern = Inr (map (\<lambda>i. chords ! nat i) pattern)"
    by (rule generate_progression_in_range)
next
  show "dict_getitem progressions ''12-bar-blues'' = Inr [0, 0, 0, 0, 3, 3, 0, 0, 4, 3, 0, 0]"
    by (simp add: dict_getitem_def progressions_def)
next
  assume "length chords = 7"
  then have "\<forall>i \<in> set [0, 0, 0, 0, 3, 3, 0, 0, 4, 3, 0, 0::int].
      0 \<le> i \<and> i < int (length chords)"
    by simp
  from generate_progression_in_range[OF this]
  show "generate_progression chords [0, 0, 0, 0, 3, 3, 0, 0, 4, 3, 0, 0] =
           Inr [chords ! 0, chords ! 0, chords ! 0, chords ! 0, chords ! 3, chords ! 3,
                chords ! 0, chords ! 0, chords ! 4, chords ! 3, chords ! 0, chords ! 0]"
    by simp
qed

theorem generate_progression_selects_witness:
  "generate_progression
       [[0, 4, 7], [2, 5, 9], [4, 7, 11], [5, 9, 0], [7, 11, 2], [9, 0, 4], [11, 2, 5::int]]
       [0, 0, 0, 0, 3, 3, 0, 0, 4, 3, 0, 0] =
     Inr [[0, 4, 7], [0, 4, 7], [0, 4, 7], [0, 4, 7], [5, 9, 0], [5, 9, 0],
          [0, 4, 7], [0, 4, 7], [7, 11, 2], [5, 9, 0], [0, 4, 7], [0, 4, 7]]"
  using generate_progression_selects[of "[0, 0, 0, 0, 3, 3, 0, 0, 4, 3, 0, 0]"
      "[[0, 4, 7], [2, 5, 9], [4, 7, 11], [5, 9, 0], [7, 11, 2], [9, 0, 4], [11, 2, 5::int]]"]
  by simp

text \<open>
  Claim C5, as the code has it. \<open>chords[i]\<close> is Python's list indexing, where an
  index \<open>i\<close> in \<open>[-len(chords), 0)\<close> counts from the end and selects
  \<open>chords[len(chords) + i]\<close>. \<open>generate_progression\<close> raises \<open>IndexError\<close> exactly
  when some pattern index is outside \<open>[-len(chords), len(chords))\<close>, and it raises
  nothing else. When every index is inside that range it returns, position by
  position, \<open>chords[i]\<close> for an index \<open>i \<ge> 0\<close> and \<open>chords[len(chords) + i]\<close> for
  an index \<open>i < 0\<close>. It returns a progression when all indices lie in
  \<open>[0, len(chords))\<close>, and it raises \<open>IndexError\<close> on a pattern holding the index 7
  against a list of 7 chords.
\<close>

theorem generate_progression_index_error:
  "(generate_progression chords pattern = Inl IndexError \<longleftrightarrow>
      (\<exists>i \<in> set pattern. i < - int (length chords) \<or> int (length chords) \<le> i))
   \<and> (\<forall>e. generate_progression chords pattern = Inl e \<longrightarrow> e = IndexError)
   \<and> ((\<forall>i \<in> set pattern. - int (length chords) \<le> i \<and> i < int (length chords)) \<longrightarrow>
        generate_progression chords pattern =
          Inr (map (\<lambda>i. chords ! nat (if i < 0 then i + int (length chords) else i)) pattern))
   \<and> ((\<forall>i \<in> set pattern. 0 \<le> i \<and> i < int (length chords)) \<longrightarrow>
        (\<exists>progression. generate_progression chords pattern = Inr progression))
   \<and> (length chords = 7 \<and> 7 \<in> set pattern \<longrightarrow>
        generate_progression chords pattern = Inl IndexError)"
proof (intro conjI allI impI)
  show "generate_progression chords pattern = Inl IndexError \<longleftrightarrow>
      (\<exists>i \<in> set pattern. i < - int (length chords) \<or> int (length chords) \<le> i)"
    by (rule generate_progression_fails_iff)
next
  fix e assume "generate_progression chords pattern = Inl e"
  then show "e = IndexError"
    by (rule generate_progression_error)
next
  assume "\<forall>i \<in> set pattern. - int (length chords) \<le> i \<and> i < int (length chords)"
  then show "generate_progression chords pattern =
      Inr (map (\<lambda>i. chords ! nat (if i < 0 then i + int (length chords) else i)) pattern)"
    by (rule generate_progression_python_index)
next
  assume "\<forall>i \<in> set pattern. 0 \<le> i \<and> i < int (length chords)"
  then show "\<exists>progression. generate_progression chords pattern = Inr progression"
    by (simp add: generate_progression_in_range)
next
  assume "length chords = 7 \<and> 7 \<in> set pattern"
  then have "\<exists>i \<in> set pattern. i < - int (length chords) \<or> int (length chords) \<le> i"
    by (intro bexI[of _ 7]) simp_all
  then show "generate_progression chords pattern = Inl IndexError"
    by (simp add: generate_progression_fails_iff)
qed

theorem generate_progression_index_error_witness:
  "generate_progression [10, 11, 12, 13, 14, 15, 16::nat] [0, 7] = Inl IndexError
   \<and> generate_progression [10, 11, 12, 13, 14, 15, 16::nat] [-8] = Inl IndexError
   \<and> generate_progression [10, 11, 12, 13, 14, 15, 16::nat] [-7, 6, -1, 0] = Inr [10, 16, 16, 10]
   \<and> generate_progression [10, 11, 12, 13, 14, 15, 16::nat] [-2, 3, -5] = Inr [15, 13, 12]
   \<and> (\<exists>progression.
         generate_progression [10, 11, 12, 13, 14, 15, 16::nat] [6, 0] = Inr progression)"
proof -
  let ?c = "[10, 11, 12, 13, 14, 15, 16::nat]"
  have "generate_progression ?c [0, 7] = Inl IndexError"
    using generate_progression_index_error[of ?c "[0, 7]"] by simp
  moreover have "generate_progression ?c [-8] = Inl IndexError"
    using generate_progression_index_error[of ?c "[-8]"] by simp
  moreover have "generate_progression ?c [-7, 6, -1, 0] = Inr [10, 16, 16, 10]"
    using generate_progression_index_error[of ?c "[-7, 6, -1, 0]"] by simp
  moreover have "generate_progression ?c [-2, 3, -5] = Inr [15, 13, 12]"
    using generate_progression_index_error[of ?c "[-2, 3, -5]"] by simp
  moreover have "\<exists>progression. generate_progression ?c [6, 0] = Inr progression"
    using generate_progression_index_error[of ?c "[6, 0]"] by simp
  ultimately show ?thesis
    by simp
qed

text \<open>The index \<open>-1\<close> is outside \<open>[0, 7)\<close> and selects the last of 7 chords.\<close>

theorem generate_progression_negative_index:
  "\<not> (0 \<le> (-1::int) \<and> (-1::int) < int (length [10, 11, 12, 13, 14, 15, 16::nat]))
   \<and> generate_progression [10, 11, 12, 13, 14, 15, 16::nat] [-1] = Inr [16]"
  by (simp add: getitem_def)

section \<open>The chords of a scale and the batch driver\<close>

lemma formulas_loop_layout:
  "list_index notes_list root = Inr pc \<Longrightarrow>
     formulas_loop root formulas acc = Inr (acc @ chords_on root pc formulas)"
  by (induction formulas arbitrary: acc) (auto simp: chords_on_def generate_chord_def)

lemma roots_loop_layout:
  "\<forall>k \<in> set ks. k < 12 \<Longrightarrow>
     roots_loop (map (\<lambda>k. notes_list ! k) ks) acc =
       Inr (acc @ concat (map (\<lambda>k. chords_on (notes_list ! k) (int k) chord_formulas) ks))"
  by (induction ks arbitrary: acc) (simp_all add: formulas_loop_layout[OF list_index_nth])

lemma length_chords_on: "length (chords_on root pc formulas) = length formulas"
  by (simp add: chords_on_def)

lemma length_chord_formulas: "length chord_formulas = 30"
  by (simp add: chord_formulas_def)

lemma take_7_chord_formulas:
  "take 7 chord_formulas =
     [(''major'', [0, 4, 7]), (''major6'', [0, 4, 7, 9]), (''major7'', [0, 4, 7, 11]),
      (''major9'', [0, 4, 7, 11, 14]), (''major11'', [0, 4, 7, 11, 14, 17]),
      (''major13'', [0, 4, 7, 11, 14, 17, 21]), (''minor'', [0, 3, 7])]"
  by (simp add: chord_formulas_def)

lemma c_major_roots:
  "[''C'', ''D'', ''E'', ''F'', ''G'', ''A'', ''B'', ''C''] =
     map (\<lambda>k. notes_list ! k) [0, 2, 4, 5, 7, 9, 11, 0]"
  by (simp add: notes_list_def)

lemma c_major_scale:
  "generate_scale ''C'' ''major'' = Inr [''C'', ''D'', ''E'', ''F'', ''G'', ''A'', ''B'', ''C'']"
  by (simp add: generate_scale_def dict_getitem_def scales_def list_index_def notes_list_def
      getitem_def)

lemma c_major_all_chords:
  "generate_all_chords_for_scale [''C'', ''D'', ''E'', ''F'', ''G'', ''A'', ''B'', ''C''] =
     Inr (concat (map (\<lambda>k. chords_on (notes_list ! k) (int k) chord_formulas)
                    [0, 2, 4, 5, 7, 9, 11, 0]))"
  unfolding generate_all_chords_for_scale_def c_major_roots
  by (subst roots_loop_layout) simp_all

lemma scale_entries_are_notes:
  assumes r: "r < 12" and st: "(scale_type, steps) \<in> set scales"
  shows "generate_scale (notes_list ! r) scale_type =
           Inr (map (\<lambda>k. notes_list ! k) (r # map nat (cursors (int r) steps)))"
  by (simp add: generate_scale_cursors[OF r st] comp_def)

text \<open>For every root of \<open>notes\<close> and every scale of \<open>scales\<close>, the first 7 entries of
  \<open>all_chords\<close> are the first 7 chord formulas on the root of the scale.\<close>

lemma slate_on_first_root:
  assumes r: "r < 12" and st: "(scale_type, steps) \<in> set scales"
  shows "\<exists>scale all_chords.
           generate_scale (notes_list ! r) scale_type = Inr scale
         \<and> generate_all_chords_for_scale scale = Inr all_chords
         \<and> take 7 all_chords = chords_on (notes_list ! r) (int r) (take 7 chord_formulas)"
proof -
  let ?ks = "r # map nat (cursors (int r) steps)"
  have "nat p < 12" if "p \<in> set (cursors (int r) steps)" for p
    using cursors_range[OF that] by linarith
  then have b: "\<forall>k \<in> set ?ks. k < 12"
    using r by auto
  have "generate_all_chords_for_scale (map (\<lambda>k. notes_list ! k) ?ks) =
     Inr (concat (map (\<lambda>k. chords_on (notes_list ! k) (int k) chord_formulas) ?ks))"
    unfolding generate_all_chords_for_scale_def using roots_loop_layout[OF b, of "[]"] by simp
  moreover have
    "take 7 (concat (map (\<lambda>k. chords_on (notes_list ! k) (int k) chord_formulas) ?ks))
      = chords_on (notes_list ! r) (int r) (take 7 chord_formulas)"
    by (simp add: length_chords_on length_chord_formulas chords_on_def take_map)
  ultimately show ?thesis
    using scale_entries_are_notes[OF r st] by blast
qed

lemma progressions_loop_error:
  "progressions_loop slate ps = Inl e \<Longrightarrow> e = IndexError"
  by (induction ps arbitrary: e)
     (auto split: sum.splits dest: generate_progression_error)

lemma progressions_loop_fails:
  "(name, pattern) \<in> set ps \<Longrightarrow> generate_progression slate pattern = Inl e \<Longrightarrow>
     \<exists>e'. progressions_loop slate ps = Inl e'"
  by (induction ps) (auto split: sum.splits)

lemma short_slate_fails:
  assumes "length slate \<le> 7"
  shows "progressions_loop slate progressions = Inl IndexError"
proof -
  have m: "(''I-bVII-IV'', [0, 10, 3]) \<in> set progressions"
    by (simp add: progressions_def)
  have "\<exists>i \<in> set [0, 10, 3::int]. i < - int (length slate) \<or> int (length slate) \<le> i"
    using assms by simp
  then have "generate_progression slate [0, 10, 3] = Inl IndexError"
    by (simp only: generate_progression_fails_iff)
  from progressions_loop_fails[OF m this] obtain e where
    e: "progressions_loop slate progressions = Inl e"
    by blast
  then have "e = IndexError"
    by (rule progressions_loop_error)
  with e show ?thesis
    by simp
qed

lemma length_progression_slate: "length (progression_slate all_chords) \<le> 7"
  by (simp add: progression_slate_def)

text \<open>
  Claim C7, on the scale of C major. \<open>generate_all_chords_for_scale\<close> runs through
  the chord formulas inside the loop over the roots, so the first 30 of its 240
  entries are the 30 formulas on the first root. The first 7 entries, which
  \<open>create_midi_files\<close> slices off for the progressions, are therefore the chords of
  the first 7 formulas (\<open>major\<close> to \<open>minor\<close>) on the root \<open>C\<close>; their roots are not
  the scale's degrees 0 to 6.
\<close>

theorem first_seven_chords_on_first_root:
  "generate_scale ''C'' ''major'' = Inr [''C'', ''D'', ''E'', ''F'', ''G'', ''A'', ''B'', ''C'']
   \<and> (\<exists>all_chords.
        generate_all_chords_for_scale [''C'', ''D'', ''E'', ''F'', ''G'', ''A'', ''B'', ''C'']
          = Inr all_chords
        \<and> length all_chords = 240
        \<and> take 7 all_chords =
            [(''C'', ''major'', [0, 4, 7]), (''C'', ''major6'', [0, 4, 7, 9]),
             (''C'', ''major7'', [0, 4, 7, 11]), (''C'', ''major9'', [0, 4, 7, 11, 2]),
             (''C'', ''major11'', [0, 4, 7, 11, 2, 5]),
             (''C'', ''major13'', [0, 4, 7, 11, 2, 5, 9]),
             (''C'', ''minor'', [0, 3, 7])]
        \<and> map fst (take 7 all_chords) \<noteq> [''C'', ''D'', ''E'', ''F'', ''G'', ''A'', ''B''])"
proof (intro conjI exI)
  let ?all = "concat (map (\<lambda>k. chords_on (notes_list ! k) (int k) chord_formulas)
                    [0, 2, 4, 5, 7, 9, 11, 0])"
  show "generate_scale ''C'' ''major'' = Inr [''C'', ''D'', ''E'', ''F'', ''G'', ''A'', ''B'', ''C'']"
    by (rule c_major_scale)
  show "generate_all_chords_for_scale [''C'', ''D'', ''E'', ''F'', ''G'', ''A'', ''B'', ''C'']
          = Inr ?all"
    by (rule c_major_all_chords)
  show "length ?all = 240"
    by (simp add: length_chords_on length_chord_formulas)
  have t: "take 7 ?all = chords_on ''C'' 0 (take 7 chord_formulas)"
    by (simp add: length_chords_on length_chord_formulas chords_on_def take_map notes_list_def)
  show "take 7 ?all =
            [(''C'', ''major'', [0, 4, 7]), (''C'', ''major6'', [0, 4, 7, 9]),
             (''C'', ''major7'', [0, 4, 7, 11]), (''C'', ''major9'', [0, 4, 7, 11, 2]),
             (''C'', ''major11'', [0, 4, 7, 11, 2, 5]),
             (''C'', ''major13'', [0, 4, 7, 11, 2, 5, 9]),
             (''C'', ''minor'', [0, 3, 7])]"
    unfolding t take_7_chord_formulas by (simp add: chords_on_def)
  show "map fst (take 7 ?all) \<noteq> [''C'', ''D'', ''E'', ''F'', ''G'', ''A'', ''B'']"
    unfolding t take_7_chord_formulas by (simp add: chords_on_def)
qed

text \<open>
  Claim C8, on the code. The table \<open>progressions\<close> has 24 patterns, and
  \<open>I-bVII-IV\<close> is \<open>[0, 10, 3]\<close>. The slate \<open>all_chords[:7]\<close> has at most 7 chords, so
  the index 10 raises \<open>IndexError\<close>: \<open>create_midi_files\<close> fails for C major, and for
  no root note and scale type does it get through the progressions.
\<close>

theorem create_midi_files_index_error:
  "length progressions = 24
   \<and> dict_getitem progressions ''I-bVII-IV'' = Inr [0, 10, 3]
   \<and> create_midi_files ''C'' ''major'' = Inl IndexError
   \<and> (\<exists>e. create_midi_files root_note scale_type = Inl e)"
proof (intro conjI)
  show "length progressions = 24"
    by (simp add: progressions_def)
  show "dict_getitem progressions ''I-bVII-IV'' = Inr [0, 10, 3]"
    by (simp add: dict_getitem_def progressions_def)
  show "create_midi_files ''C'' ''major'' = Inl IndexError"
    by (simp add: create_midi_files_def c_major_scale c_major_all_chords
        short_slate_fails[OF length_progression_slate])
  show "\<exists>e. create_midi_files root_note scale_type = Inl e"
    by (simp add: create_midi_files_def short_slate_fails[OF length_progression_slate]
        split: sum.splits)
qed

end
